theory Spec2Isabelle
  imports Complex_Main "HOL-Library.Sublist"
begin

section \<open>JavaScript values\<close>

text \<open>
  The suite is JavaScript. The values its helpers inspect come out of \<^verbatim>\<open>JSON.parse\<close> or
  out of a property read, so the model has the JSON shapes, \<^verbatim>\<open>undefined\<close> (what a read of
  a missing property gives) and the built-in objects a read can find on
  \<^verbatim>\<open>Object.prototype\<close>. A string is a list of characters standing for its code units.
\<close>

datatype jsnum = Finite rat | PosInfinity | NegInfinity

datatype jsval =
    JUndefined
  | JNull
  | JBool bool
  | JNum jsnum
  | JStr string
  | JArr "jsval list"
  | JObj "(string \<times> jsval) list"
  | JBuiltin string

text \<open>An \<^verbatim>\<open>Error\<close> object, by its message.\<close>

datatype error = Error string

text \<open>
  \<^verbatim>\<open>url.includes(pattern)\<close>: true when \<open>pattern\<close> occurs in \<open>url\<close> at some position,
  compared code unit by code unit.
\<close>

fun js_includes :: "string \<Rightarrow> string \<Rightarrow> bool" where
  "js_includes [] pat = (pat = [])"
| "js_includes (c # cs) pat = (prefix pat (c # cs) \<or> js_includes cs pat)"

text \<open>Truthiness: what \<^verbatim>\<open>!v\<close>, \<^verbatim>\<open>v && w\<close> and \<^verbatim>\<open>if (v)\<close> test.\<close>

fun js_truthy :: "jsval \<Rightarrow> bool" where
  "js_truthy JUndefined = False"
| "js_truthy JNull = False"
| "js_truthy (JBool b) = b"
| "js_truthy (JNum (Finite q)) = (q \<noteq> 0)"
| "js_truthy (JNum PosInfinity) = True"
| "js_truthy (JNum NegInfinity) = True"
| "js_truthy (JStr s) = (s \<noteq> [])"
| "js_truthy (JArr xs) = True"
| "js_truthy (JObj kvs) = True"
| "js_truthy (JBuiltin name) = True"

text \<open>
  The properties every plain object inherits from \<^verbatim>\<open>Object.prototype\<close>: a read of one of
  these names on an object that has no own property of that name finds the built-in.
\<close>

definition object_prototype_names :: "string list" where
  "object_prototype_names =
     [''constructor'', ''__proto__'', ''hasOwnProperty'', ''isPrototypeOf'',
      ''propertyIsEnumerable'', ''toLocaleString'', ''toString'', ''valueOf'',
      ''__defineGetter__'', ''__defineSetter__'', ''__lookupGetter__'', ''__lookupSetter__'']"

definition object_prototype :: "string \<Rightarrow> jsval" where
  "object_prototype key =
     (if key \<in> set object_prototype_names then JBuiltin key else JUndefined)"

text \<open>
  Two conversions belong to the language runtime and not to the repository, and are
  parameters of the model: what a property read finds on an array, a string, a number,
  a boolean or a built-in (apart from the \<^verbatim>\<open>length\<close> of arrays and strings), and the
  result of \<^verbatim>\<open>v > 0\<close> for a \<open>v\<close> that is not \<^verbatim>\<open>undefined\<close>, \<^verbatim>\<open>null\<close>, a boolean or a
  number (the comparison then turns \<open>v\<close> into a number by way of its string form).
\<close>

record runtime =
  rt_get :: "jsval \<Rightarrow> string \<Rightarrow> jsval"
  rt_gt_zero :: "jsval \<Rightarrow> bool"

text \<open>
  \<^verbatim>\<open>v[key]\<close> and \<^verbatim>\<open>v.key\<close>. A read on \<^verbatim>\<open>undefined\<close> or \<^verbatim>\<open>null\<close> throws a TypeError; an
  object is the list of its own properties (of a repeated key the first entry counts),
  with \<^verbatim>\<open>Object.prototype\<close> behind it; a name found nowhere reads as \<^verbatim>\<open>undefined\<close>.
\<close>

fun js_get :: "runtime \<Rightarrow> jsval \<Rightarrow> string \<Rightarrow> error + jsval" where
  "js_get rt JUndefined key = Inl (Error ''TypeError: Cannot read properties of undefined'')"
| "js_get rt JNull key = Inl (Error ''TypeError: Cannot read properties of null'')"
| "js_get rt (JObj kvs) key =
     Inr (case map_of kvs key of Some v \<Rightarrow> v | None \<Rightarrow> object_prototype key)"
| "js_get rt (JArr xs) key =
     Inr (if key = ''length'' then JNum (Finite (of_nat (length xs))) else rt_get rt (JArr xs) key)"
| "js_get rt (JStr s) key =
     Inr (if key = ''length'' then JNum (Finite (of_nat (length s))) else rt_get rt (JStr s) key)"
| "js_get rt v key = Inr (rt_get rt v key)"

text \<open>\<^verbatim>\<open>v > 0\<close>: \<^verbatim>\<open>undefined\<close> turns into NaN, \<^verbatim>\<open>null\<close> into 0, a boolean into 0 or 1.\<close>

fun js_gt_zero :: "runtime \<Rightarrow> jsval \<Rightarrow> bool" where
  "js_gt_zero rt JUndefined = False"
| "js_gt_zero rt JNull = False"
| "js_gt_zero rt (JBool b) = b"
| "js_gt_zero rt (JNum (Finite q)) = (q > 0)"
| "js_gt_zero rt (JNum PosInfinity) = True"
| "js_gt_zero rt (JNum NegInfinity) = False"
| "js_gt_zero rt v = rt_gt_zero rt v"

section \<open>The network-mock harness (pages/NetworkMockPage.js)\<close>

text \<open>
  The page's route table holds the handlers the harness has registered with
  \<^verbatim>\<open>page.route\<close>, in registration order: the catch-all observer on \<^verbatim>\<open>'**'\<close> and one
  interceptor for each mocked pattern, with the data it answers with. A request is
  kept by its address.
\<close>

datatype route = MonitorAll | Mock string jsval

text \<open>
  \<open>startRequestMonitoring\<close> and \<open>setupMockResponse\<close> are \<^verbatim>\<open>async\<close>: a call runs up to
  an \<^verbatim>\<open>await\<close>, is suspended there, and goes on when the awaited promise settles;
  other calls can run in between. A suspended call is kept by the place it waits at:
  in \<open>startRequestMonitoring\<close> at \<^verbatim>\<open>await this.page.route('**', ...)\<close>; in
  \<open>setupMockResponse\<close> at \<^verbatim>\<open>await this.startRequestMonitoring()\<close> while that inner call
  waits for its route, or at \<^verbatim>\<open>await this.page.route(urlPattern, ...)\<close>.
\<close>

datatype suspended =
    AwaitMonitorRoute
  | SetupAwaitMonitorRoute string jsval
  | SetupAwaitMockRoute string jsval

record NetworkMockPage =
  interceptedRequests :: "string list"
  interceptedUrls :: "string list"
  isMonitoringRequests :: bool
  routes :: "route list"
  responseListeners :: nat
  suspended :: "suspended list"

text \<open>The constructor.\<close>

definition new_NetworkMockPage :: NetworkMockPage where
  "new_NetworkMockPage =
     \<lparr>interceptedRequests = [], interceptedUrls = [], isMonitoringRequests = False,
      routes = [], responseListeners = 0, suspended = []\<rparr>"

text \<open>How a stretch of a call ends: it returns, it raises an error, or it is suspended.\<close>

datatype call_result = Returns | Raises error | Suspends

text \<open>
  \<open>startRequestMonitoring\<close> up to its \<^verbatim>\<open>await\<close>: with the flag set it returns at once;
  otherwise it asks the page for the catch-all route and is suspended. The flag is
  not touched here.
\<close>

definition startRequestMonitoring_call :: "NetworkMockPage \<Rightarrow> call_result \<times> NetworkMockPage" where
  "startRequestMonitoring_call this =
     (if isMonitoringRequests this then (Returns, this)
      else (Suspends, this\<lparr>suspended := suspended this @ [AwaitMonitorRoute]\<rparr>))"

text \<open>
  \<open>startRequestMonitoring\<close> after its \<^verbatim>\<open>await\<close>, once the route is registered: the
  response listener is added and the flag is set.
\<close>

definition monitoring_installed :: "NetworkMockPage \<Rightarrow> NetworkMockPage" where
  "monitoring_installed this =
     this\<lparr>routes := routes this @ [MonitorAll],
          responseListeners := Suc (responseListeners this),
          isMonitoringRequests := True\<rparr>"

text \<open>
  \<open>setupMockResponse\<close> up to its first suspension: it calls \<open>startRequestMonitoring\<close>;
  when that returns at once it goes on to ask for the route of the pattern, otherwise
  it waits for the inner call, and the suspended inner call is kept together with the
  outer one as \<open>SetupAwaitMonitorRoute\<close>.
\<close>

definition setupMockResponse_call ::
  "string \<Rightarrow> jsval \<Rightarrow> NetworkMockPage \<Rightarrow> call_result \<times> NetworkMockPage" where
  "setupMockResponse_call urlPattern mockData this =
     (case startRequestMonitoring_call this of
        (Returns, this') \<Rightarrow>
          (Suspends, this'\<lparr>suspended := suspended this' @ [SetupAwaitMockRoute urlPattern mockData]\<rparr>)
      | (r, this') \<Rightarrow>
          (Suspends, this'\<lparr>suspended := butlast (suspended this')
                                          @ [SetupAwaitMonitorRoute urlPattern mockData]\<rparr>))"

definition remove_nth :: "nat \<Rightarrow> 'a list \<Rightarrow> 'a list" where
  "remove_nth i xs = take i xs @ drop (Suc i) xs"

text \<open>
  The \<open>i\<close>-th suspended call goes on when the \<^verbatim>\<open>page.route\<close> it waits for settles. A
  rejection makes the call raise the error to its caller, with the fields as they are
  (the route is taken to be registered when the promise resolves, and not when it
  rejects). Otherwise the call runs to its next \<^verbatim>\<open>await\<close> or to its end.
\<close>

fun resume :: "nat \<Rightarrow> suspended \<Rightarrow> error + unit \<Rightarrow> NetworkMockPage \<Rightarrow> call_result \<times> NetworkMockPage" where
  "resume i AwaitMonitorRoute (Inl e) this =
     (Raises e, this\<lparr>suspended := remove_nth i (suspended this)\<rparr>)"
| "resume i AwaitMonitorRoute (Inr u) this =
     (Returns, (monitoring_installed this)\<lparr>suspended := remove_nth i (suspended this)\<rparr>)"
| "resume i (SetupAwaitMonitorRoute urlPattern mockData) (Inl e) this =
     (Raises e, this\<lparr>suspended := remove_nth i (suspended this)\<rparr>)"
| "resume i (SetupAwaitMonitorRoute urlPattern mockData) (Inr u) this =
     (Suspends, (monitoring_installed this)
                  \<lparr>suspended := (suspended this)[i := SetupAwaitMockRoute urlPattern mockData]\<rparr>)"
| "resume i (SetupAwaitMockRoute urlPattern mockData) (Inl e) this =
     (Raises e, this\<lparr>suspended := remove_nth i (suspended this)\<rparr>)"
| "resume i (SetupAwaitMockRoute urlPattern mockData) (Inr u) this =
     (Returns, this\<lparr>routes := routes this @ [Mock urlPattern mockData],
                     suspended := remove_nth i (suspended this)\<rparr>)"

text \<open>
  The bodies of the two route handlers, run by the browser library for a request to
  \<open>url\<close>: the observer pushes the address on the log, the interceptor pushes the
  request on \<open>interceptedRequests\<close> and fulfils it.
\<close>

fun route_handler :: "route \<Rightarrow> string \<Rightarrow> NetworkMockPage \<Rightarrow> NetworkMockPage" where
  "route_handler MonitorAll url this = this\<lparr>interceptedUrls := interceptedUrls this @ [url]\<rparr>"
| "route_handler (Mock urlPattern mockData) url this =
     this\<lparr>interceptedRequests := interceptedRequests this @ [url]\<rparr>"

definition getInterceptedUrls :: "NetworkMockPage \<Rightarrow> string list" where
  "getInterceptedUrls this = interceptedUrls this"

definition wasUrlPatternIntercepted :: "NetworkMockPage \<Rightarrow> string \<Rightarrow> bool" where
  "wasUrlPatternIntercepted this pattern =
     (let matchingUrls = filter (\<lambda>url. js_includes url pattern) (interceptedUrls this)
      in length matchingUrls > 0)"

text \<open>
  What can happen to a harness during a test: a method is called, the promise that
  the \<open>i\<close>-th suspended call waits for settles, or the browser library runs the
  \<open>i\<close>-th registered handler for a request. Which call goes on next and which
  handlers run for a request is not decided by the harness, so every choice of \<open>i\<close>
  is covered; a call that is not suspended cannot go on, and a handler that was never
  registered cannot run.
\<close>

datatype harness_op =
    StartRequestMonitoring
  | SetupMockResponse string jsval
  | WasUrlPatternIntercepted string
  | Settle nat "error + unit"
  | HandleRoute nat string

fun step :: "NetworkMockPage \<Rightarrow> harness_op \<Rightarrow> NetworkMockPage" where
  "step this StartRequestMonitoring = snd (startRequestMonitoring_call this)"
| "step this (SetupMockResponse urlPattern mockData) =
     snd (setupMockResponse_call urlPattern mockData this)"
| "step this (WasUrlPatternIntercepted pattern) = this"
| "step this (Settle i outcome) =
     (if i < length (suspended this) then snd (resume i (suspended this ! i) outcome this)
      else this)"
| "step this (HandleRoute i url) =
     (if i < length (routes this) then route_handler (routes this ! i) url this else this)"

fun run :: "NetworkMockPage \<Rightarrow> harness_op list \<Rightarrow> NetworkMockPage" where
  "run this [] = this"
| "run this (opn # ops) = run (step this opn) ops"

text \<open>
  The addresses the observer was run for, in the order of the operations: what the log
  is expected to gain.
\<close>

fun observed :: "NetworkMockPage \<Rightarrow> harness_op \<Rightarrow> string list" where
  "observed this (HandleRoute i url) =
     (if i < length (routes this) \<and> routes this ! i = MonitorAll then [url] else [])"
| "observed this opn = []"

fun arrivals :: "NetworkMockPage \<Rightarrow> harness_op list \<Rightarrow> string list" where
  "arrivals this [] = []"
| "arrivals this (opn # ops) = observed this opn @ arrivals (step this opn) ops"

text \<open>
  A test that awaits each call before it makes the next one: the call starts and its
  own promises settle, with the given outcomes, before anything else happens. The
  first outcome of \<open>AwaitSetupMockResponse\<close> is that of the catch-all route (asked for
  only while the flag is unset), the second that of the route of the pattern.
\<close>

datatype awaited_op =
    AwaitStartRequestMonitoring "error + unit"
  | AwaitSetupMockResponse string jsval "error + unit" "error + unit"
  | AskWasUrlPatternIntercepted string
  | RouteHandled nat string

fun awaited_ops :: "NetworkMockPage \<Rightarrow> awaited_op \<Rightarrow> harness_op list" where
  "awaited_ops this (AwaitStartRequestMonitoring routed) =
     [StartRequestMonitoring, Settle (length (suspended this)) routed]"
| "awaited_ops this (AwaitSetupMockResponse urlPattern mockData routed mocked) =
     (if isMonitoringRequests this
      then [SetupMockResponse urlPattern mockData, Settle (length (suspended this)) mocked]
      else [SetupMockResponse urlPattern mockData, Settle (length (suspended this)) routed,
            Settle (length (suspended this)) mocked])"
| "awaited_ops this (AskWasUrlPatternIntercepted pattern) = [WasUrlPatternIntercepted pattern]"
| "awaited_ops this (RouteHandled i url) = [HandleRoute i url]"

fun sequential_run :: "NetworkMockPage \<Rightarrow> awaited_op list \<Rightarrow> NetworkMockPage" where
  "sequential_run this [] = this"
| "sequential_run this (a # as) = sequential_run (run this (awaited_ops this a)) as"

section \<open>Calls into the browser\<close>

text \<open>
  A page object drives a live browser page. What the page answers is not decided by the
  suite, so every awaited call takes its outcome from the environment: \<open>Inr v\<close> when
  the promise resolves with \<open>v\<close>, \<open>Inl e\<close> when it rejects (or the call throws) with
  \<open>e\<close>. A run of a method is the list of the calls it made, in order, and how it
  ended: \<open>Inr\<close> its return value, \<open>Inl\<close> the error it raised to its caller.
\<close>

datatype event =
    IsVisible string
  | Reload
  | WaitForTimeout nat
  | WaitForChallengeGone nat
  | PageUrl
  | Goto string
  | Click string
  | FsAccess string
  | FsReadFile string
  | AddCookies jsval
  | Login jsval

type_synonym 'a eff = "event list \<times> (error + 'a)"

fun message :: "error \<Rightarrow> string" where
  "message (Error m) = m"

definition ret :: "'a \<Rightarrow> 'a eff" where
  "ret v = ([], Inr v)"

definition throw :: "error \<Rightarrow> 'a eff" where
  "throw e = ([], Inl e)"

definition call :: "event \<Rightarrow> error + 'a \<Rightarrow> 'a eff" where
  "call ev outcome = ([ev], outcome)"

text \<open>Sequencing: an error ends the run, as an exception leaves the statements after it.\<close>

definition and_then :: "'a eff \<Rightarrow> ('a \<Rightarrow> 'b eff) \<Rightarrow> 'b eff" where
  "and_then m f =
     (case m of
        (evs, Inl e) \<Rightarrow> (evs, Inl e)
      | (evs, Inr v) \<Rightarrow> (case f v of (evs', r) \<Rightarrow> (evs @ evs', r)))"

text \<open>\<^verbatim>\<open>try { m } catch (error) { h }\<close>, and \<^verbatim>\<open>promise.catch(h)\<close>.\<close>

definition try_catch :: "'a eff \<Rightarrow> (error \<Rightarrow> 'a eff) \<Rightarrow> 'a eff" where
  "try_catch m h =
     (case m of
        (evs, Inl e) \<Rightarrow> (case h e of (evs', r) \<Rightarrow> (evs @ evs', r))
      | (evs, Inr v) \<Rightarrow> (evs, Inr v))"

text \<open>\<^verbatim>\<open>await page.locator(selector).isVisible(...).catch(() => false)\<close>\<close>

definition is_visible :: "string \<Rightarrow> error + bool \<Rightarrow> bool eff" where
  "is_visible selector outcome =
     try_catch (call (IsVisible selector) outcome) (\<lambda>error. ret False)"

section \<open>The base page (pages/BasePage.js)\<close>

record BasePage =
  baseUrl :: string

definition domains_auth :: string where
  "domains_auth = ''https://login.funda.nl''"

definition domains_main :: string where
  "domains_main = ''https://www.funda.nl''"

text \<open>The constructor: \<^verbatim>\<open>options.domain || this.domains.auth\<close>; an empty string is falsy.\<close>

definition new_BasePage :: "string option \<Rightarrow> BasePage" where
  "new_BasePage domain =
     \<lparr>baseUrl = (case domain of None \<Rightarrow> domains_auth
                  | Some d \<Rightarrow> if d = [] then domains_auth else d)\<rparr>"

definition alwaysUseMainSitePaths :: "string list" where
  "alwaysUseMainSitePaths = [''zoeken'', ''koop'', ''huur'', ''mijn'']"

definition navigate :: "BasePage \<Rightarrow> string \<Rightarrow> bool \<Rightarrow> error + unit \<Rightarrow> unit eff" where
  "navigate this path useMainSite goto_outcome =
     (let domain = (if useMainSite then domains_main else baseUrl this);
          shouldUseMainSite = list_ex (\<lambda>pre. prefix pre path) alwaysUseMainSitePaths;
          targetDomain = (if shouldUseMainSite then domains_main else domain)
      in call (Goto (targetDomain @ ''/'' @ path)) goto_outcome)"

subsection \<open>isLoggedIn\<close>

text \<open>What the page answers to the calls of one run of \<open>isLoggedIn\<close>.\<close>

record login_page =
  lp_url_logged :: "error + string"
  lp_settle :: "error + unit"
  lp_url :: "error + string"
  lp_isVisible :: "string \<Rightarrow> error + bool"
  lp_click :: "error + unit"
  lp_menu_wait :: "error + unit"

definition loggedInIndicators :: "string list" where
  "loggedInIndicators = [''text=Account'']"

definition accountMenu :: string where
  \<open>accountMenu = ''button:has-text("Account")''\<close>

definition logoutLink :: string where
  \<open>logoutLink = ''a:has-text(" Uitloggen")''\<close>

definition notLoggedInIndicators :: "string list" where
  \<open>notLoggedInIndicators =
     [''input[id="UserName"]'', ''input[id="Password"]'', ''button:has-text("Log in")'']\<close>

text \<open>
  The two \<^verbatim>\<open>for\<close> loops: each indicator is looked up inside its own
  \<^verbatim>\<open>try { } catch (error) { }\<close>, and the first visible one ends the loop (and the method).
\<close>

fun first_visible :: "login_page \<Rightarrow> string list \<Rightarrow> bool eff" where
  "first_visible w [] = ret False"
| "first_visible w (indicator # rest) =
     and_then (try_catch (is_visible indicator (lp_isVisible w indicator)) (\<lambda>error. ret False))
       (\<lambda>isVisible. if isVisible then ret True else first_visible w rest)"

text \<open>Step 3: open the account menu and look for the log-out link.\<close>

definition account_menu_logout :: "login_page \<Rightarrow> bool eff" where
  "account_menu_logout w =
     try_catch
       (and_then (is_visible accountMenu (lp_isVisible w accountMenu)) (\<lambda>isMenuVisible.
          if isMenuVisible then
            and_then (call (Click accountMenu) (lp_click w)) (\<lambda>_.
            and_then (call (WaitForTimeout 500) (lp_menu_wait w)) (\<lambda>_.
            is_visible logoutLink (lp_isVisible w logoutLink)))
          else ret False))
       (\<lambda>error. ret False)"

definition isLoggedIn :: "login_page \<Rightarrow> jsval eff" where
  "isLoggedIn w =
     try_catch
       (and_then (call PageUrl (lp_url_logged w)) (\<lambda>_.
        and_then (call (WaitForTimeout 1000) (lp_settle w)) (\<lambda>_.
        and_then (call PageUrl (lp_url w)) (\<lambda>url.
          if js_includes url ''www.funda.nl''
             \<or> (\<not> js_includes url ''login.funda.nl'' \<and> js_includes url ''funda.nl'')
          then ret (JBool True)
          else
            and_then (first_visible w loggedInIndicators) (\<lambda>found.
              if found then ret (JBool True)
              else
                and_then (account_menu_logout w) (\<lambda>isLogoutVisible.
                  if isLogoutVisible then ret (JBool True)
                  else
                    and_then (first_visible w notLoggedInIndicators) (\<lambda>found.
                      if found then ret (JBool False) else ret (JBool False))))))))
       (\<lambda>error. ret (JBool False))"

subsection \<open>handlePossibleCaptcha\<close>

text \<open>
  What the environment answers during one run of \<open>handlePossibleCaptcha\<close>:
  \<^verbatim>\<open>process.env.HEADLESS\<close> and the outcome of each browser call. The polls of the waiting
  loop are indexed by the elapsed time at which they are made.
\<close>

record captcha_page =
  cp_HEADLESS :: "string option"
  cp_accessDenied :: "error + bool"
  cp_reload :: "error + unit"
  cp_reload_wait :: "error + unit"
  cp_captchaPage :: "error + bool"
  cp_stillOnCaptchaPage :: "nat \<Rightarrow> error + bool"
  cp_loginFormVisible :: "nat \<Rightarrow> error + bool"
  cp_poll_wait :: "nat \<Rightarrow> error + unit"
  cp_captcha_settle :: "error + unit"
  cp_imageSelect :: "error + bool"
  cp_imageGone :: "error + unit"
  cp_image_settle :: "error + unit"
  cp_url :: "error + string"
  cp_goto :: "error + unit"
  cp_goto_wait :: "error + unit"

record captcha_options =
  returnPath :: "string option"
  useMainSite :: "bool option"

definition accessDeniedLocator :: string where
  "accessDeniedLocator = ''text=Access to login.funda.nl was denied''"

definition captchaPageTitleLocator :: string where
  "captchaPageTitleLocator = ''text=Je bent bijna op de pagina die je zoekt''"

definition loginFormLocator :: string where
  \<open>loginFormLocator = ''button:has-text("Log in"), input[placeholder="E-mailadres"]''\<close>

definition imageSelectLocator :: string where
  \<open>imageSelectLocator = ''.rc-imageselect-challenge, [class*="imageselect"]''\<close>

definition timeout :: nat where
  "timeout = 120000"

definition checkInterval :: nat where
  "checkInterval = 3000"

text \<open>
  \<^verbatim>\<open>process.env.HEADLESS !== 'false' && process.env.HEADLESS !== '0'\<close>: the run is
  non-interactive unless the variable is set to one of the two strings.
\<close>

definition headless :: "string option \<Rightarrow> bool" where
  "headless v \<longleftrightarrow> v \<noteq> Some ''false'' \<and> v \<noteq> Some ''0''"

text \<open>
  The \<^verbatim>\<open>while (timeElapsed < timeout)\<close> loop; it returns \<open>timeElapsed\<close> as the loop
  leaves it, by \<^verbatim>\<open>break\<close> or by its condition.
\<close>

function poll_loop :: "captcha_page \<Rightarrow> nat \<Rightarrow> nat eff" where
  "poll_loop w timeElapsed =
     (if timeElapsed < timeout then
        and_then (is_visible captchaPageTitleLocator (cp_stillOnCaptchaPage w timeElapsed))
          (\<lambda>stillOnCaptchaPage.
        and_then (is_visible loginFormLocator (cp_loginFormVisible w timeElapsed))
          (\<lambda>loginFormVisible.
          if \<not> stillOnCaptchaPage \<or> loginFormVisible then ret timeElapsed
          else
            and_then (call (WaitForTimeout checkInterval) (cp_poll_wait w timeElapsed)) (\<lambda>_.
            poll_loop w (timeElapsed + checkInterval))))
      else ret timeElapsed)"
  by pat_completeness auto
termination
  by (relation "measure (\<lambda>(w, timeElapsed). timeout - timeElapsed)")
     (auto simp: timeout_def checkInterval_def)

text \<open>The \<^verbatim>\<open>try\<close> block of the checkbox gate, entered in interactive mode.\<close>

definition wait_for_captcha :: "captcha_page \<Rightarrow> unit eff" where
  "wait_for_captcha w =
     try_catch
       (and_then (poll_loop w 0) (\<lambda>timeElapsed.
          if timeElapsed \<ge> timeout
          then throw (Error ''CAPTCHA solving timeout exceeded. Test failed.'')
          else call (WaitForTimeout 2000) (cp_captcha_settle w)))
       (\<lambda>error. throw (Error (''Failed to handle CAPTCHA: '' @ message error)))"

text \<open>
  The \<^verbatim>\<open>try\<close> block of the image-selection gate: a race between the challenge leaving
  the page and a navigation, each with a timeout of 120000 ms.
\<close>

definition wait_for_image_challenge :: "captcha_page \<Rightarrow> unit eff" where
  "wait_for_image_challenge w =
     try_catch
       (and_then (call (WaitForChallengeGone 120000) (cp_imageGone w)) (\<lambda>_.
        call (WaitForTimeout 2000) (cp_image_settle w)))
       (\<lambda>error. throw (Error ''Image CAPTCHA solving timeout exceeded. Test failed.''))"

definition refresh_if_access_denied :: "captcha_page \<Rightarrow> unit eff" where
  "refresh_if_access_denied w =
     and_then (is_visible accessDeniedLocator (cp_accessDenied w)) (\<lambda>accessDeniedVisible.
       if accessDeniedVisible then
         and_then (call Reload (cp_reload w)) (\<lambda>_.
         call (WaitForTimeout 2000) (cp_reload_wait w))
       else ret ())"

definition renavigate :: "BasePage \<Rightarrow> string \<Rightarrow> bool \<Rightarrow> captcha_page \<Rightarrow> unit eff" where
  "renavigate this path mainSite w =
     and_then (call PageUrl (cp_url w)) (\<lambda>currentUrl.
       let onMainSite = js_includes currentUrl ''www.funda.nl'';
           authSitePath = js_includes path ''account/''
       in if (onMainSite \<and> authSitePath \<and> \<not> mainSite)
             \<or> (\<not> onMainSite \<and> \<not> authSitePath \<and> mainSite)
             \<or> \<not> js_includes currentUrl path
          then and_then (navigate this path mainSite (cp_goto w)) (\<lambda>_.
               call (WaitForTimeout 1000) (cp_goto_wait w))
          else ret ())"

definition handlePossibleCaptcha :: "BasePage \<Rightarrow> captcha_options \<Rightarrow> captcha_page \<Rightarrow> unit eff" where
  "handlePossibleCaptcha this options w =
     (let path = (case returnPath options of None \<Rightarrow> ''account/login''
                  | Some p \<Rightarrow> if p = [] then ''account/login'' else p);
          mainSite = (case useMainSite options of None \<Rightarrow> False | Some b \<Rightarrow> b)
      in
        and_then (refresh_if_access_denied w) (\<lambda>_.
        and_then (is_visible captchaPageTitleLocator (cp_captchaPage w)) (\<lambda>isCaptchaPageVisible.
        and_then
          (if isCaptchaPageVisible then
             if headless (cp_HEADLESS w)
             then throw (Error ''CAPTCHA detected in headless mode. Test cannot proceed automatically.'')
             else wait_for_captcha w
           else ret ()) (\<lambda>_.
        and_then (is_visible imageSelectLocator (cp_imageSelect w)) (\<lambda>isImageSelectVisible.
        and_then
          (if isImageSelectVisible then wait_for_image_challenge w else ret ()) (\<lambda>_.
        renavigate this path mainSite w))))))"

section \<open>Files\<close>

text \<open>
  A file on disk is missing (\<^verbatim>\<open>fs.access\<close> and \<^verbatim>\<open>fs.readFile\<close> reject), present but
  unreadable (\<^verbatim>\<open>fs.readFile\<close> rejects), or has a content; a content is represented by
  what \<^verbatim>\<open>JSON.parse\<close> makes of it: a syntax error, or a value.
\<close>

datatype content = NotJson | Json jsval

datatype disk_file = Missing | Unreadable | Content content

type_synonym filesystem = "string \<Rightarrow> disk_file"

definition fs_access :: "filesystem \<Rightarrow> string \<Rightarrow> unit eff" where
  "fs_access fs path =
     call (FsAccess path) (case fs path of Missing \<Rightarrow> Inl (Error ''ENOENT'') | _ \<Rightarrow> Inr ())"

definition fs_readFile :: "filesystem \<Rightarrow> string \<Rightarrow> content eff" where
  "fs_readFile fs path =
     call (FsReadFile path)
       (case fs path of
          Missing \<Rightarrow> Inl (Error ''ENOENT'')
        | Unreadable \<Rightarrow> Inl (Error ''EACCES'')
        | Content data \<Rightarrow> Inr data)"

definition JSON_parse :: "content \<Rightarrow> jsval eff" where
  "JSON_parse data =
     (case data of NotJson \<Rightarrow> throw (Error ''SyntaxError'') | Json v \<Rightarrow> ret v)"

text \<open>An expression that makes no call: its value, or the error it throws.\<close>

definition of_result :: "error + 'a \<Rightarrow> 'a eff" where
  "of_result r = ([], r)"

section \<open>Helpers (utils/helpers.js)\<close>

text \<open>
  The value of \<^verbatim>\<open>state && state.cookies && state.cookies.length > 0\<close>: \<^verbatim>\<open>a && b\<close> is
  \<open>a\<close> when \<open>a\<close> is falsy and \<open>b\<close> otherwise.
\<close>

definition has_cookies :: "runtime \<Rightarrow> jsval \<Rightarrow> error + jsval" where
  "has_cookies rt state =
     (if \<not> js_truthy state then Inr state
      else case js_get rt state ''cookies'' of
             Inl e \<Rightarrow> Inl e
           | Inr cookies \<Rightarrow>
               if \<not> js_truthy cookies then Inr cookies
               else case js_get rt cookies ''length'' of
                      Inl e \<Rightarrow> Inl e
                    | Inr n \<Rightarrow> Inr (JBool (js_gt_zero rt n)))"

definition loadTestData :: "filesystem \<Rightarrow> string \<Rightarrow> jsval eff" where
  "loadTestData fs filePath =
     try_catch
       (and_then (fs_readFile fs filePath) (\<lambda>data. JSON_parse data))
       (\<lambda>error. ret (JObj []))"

definition isStateFileValid :: "runtime \<Rightarrow> filesystem \<Rightarrow> string \<Rightarrow> jsval eff" where
  "isStateFileValid rt fs filePath =
     try_catch
       (and_then (fs_access fs filePath) (\<lambda>_.
        and_then (fs_readFile fs filePath) (\<lambda>data.
        and_then (JSON_parse data) (\<lambda>state.
        of_result (has_cookies rt state)))))
       (\<lambda>error. ret (JBool False))"

section \<open>Commands (utils/commands.js)\<close>

definition testDataPath :: string where
  "testDataPath = ''data/test-data.json''"

definition credentialsPath :: string where
  "credentialsPath = ''data/credentials.json''"

definition getTestData :: "runtime \<Rightarrow> filesystem \<Rightarrow> string \<Rightarrow> jsval eff" where
  \<open>getTestData rt fs dataType =
     and_then (loadTestData fs testDataPath) (\<lambda>data.
     and_then (of_result (js_get rt data dataType)) (\<lambda>found.
       if \<not> js_truthy found
       then throw (Error (''Test data for type "'' @ dataType @ ''" not found in data file''))
       else of_result (js_get rt data dataType)))\<close>

text \<open>The parameter defaults to \<^verbatim>\<open>'testUser'\<close> when the caller passes none.\<close>

definition getCredentials :: "runtime \<Rightarrow> filesystem \<Rightarrow> string option \<Rightarrow> jsval eff" where
  \<open>getCredentials rt fs userTypeArg =
     (let userType = (case userTypeArg of None \<Rightarrow> ''testUser'' | Some t \<Rightarrow> t);
          notFound = Error (''Credentials for user type "'' @ userType @ ''" not found in credentials file'')
      in
        and_then (loadTestData fs credentialsPath) (\<lambda>data.
        and_then (of_result (js_get rt data ''users'')) (\<lambda>users.
          if \<not> js_truthy users then throw notFound
          else
            and_then (of_result (js_get rt users userType)) (\<lambda>found.
              if \<not> js_truthy found then throw notFound
              else of_result (js_get rt users userType)))))\<close>

section \<open>Login orchestration (utils/ensureLoggedIn.js)\<close>

text \<open>
  What the environment answers during one run of \<open>ensureLoggedIn\<close>: the page as the
  first and as the second login check find it, the files, the outcome of applying the
  cookies and of the navigation after it, and the outcome of the \<open>login\<close> command for
  the credentials it is given (the return value of \<^verbatim>\<open>LoginPage.login\<close>, or the error that
  command raises, for instance from the challenge handler).
\<close>

record login_env =
  le_first_check :: login_page
  le_fs :: filesystem
  le_addCookies :: "error + unit"
  le_goto :: "error + unit"
  le_second_check :: login_page
  le_login :: "jsval \<Rightarrow> error + jsval"

definition storageStatePath :: string where
  "storageStatePath = ''data/state.json''"

text \<open>
  The first \<^verbatim>\<open>try\<close> block. \<open>Some v\<close>: the function returns \<open>v\<close> from inside the block;
  \<open>None\<close>: control reaches the statements after it.
\<close>

definition login_with_stored_cookies :: "runtime \<Rightarrow> login_env \<Rightarrow> jsval option eff" where
  "login_with_stored_cookies rt w =
     try_catch
       (and_then (fs_access (le_fs w) storageStatePath) (\<lambda>_.
        and_then (fs_readFile (le_fs w) storageStatePath) (\<lambda>stateContent.
        and_then (JSON_parse stateContent) (\<lambda>state.
        and_then (of_result (has_cookies rt state)) (\<lambda>hasCookies.
          if js_truthy hasCookies then
            and_then (of_result (js_get rt state ''cookies'')) (\<lambda>cookies.
            and_then (call (AddCookies cookies) (le_addCookies w)) (\<lambda>_.
            and_then (call (Goto ''https://www.funda.nl'') (le_goto w)) (\<lambda>_.
            and_then (isLoggedIn (le_second_check w)) (\<lambda>loginStateAfterCookies.
              if js_truthy loginStateAfterCookies then ret (Some (JBool True))
              else ret None))))
          else ret None)))))
       (\<lambda>error. ret None)"

text \<open>The second \<^verbatim>\<open>try\<close> block: the manual login.\<close>

definition manual_login :: "runtime \<Rightarrow> login_env \<Rightarrow> jsval eff" where
  "manual_login rt w =
     try_catch
       (and_then (getCredentials rt (le_fs w) None) (\<lambda>credentials.
        and_then (call (Login credentials) (le_login w credentials)) (\<lambda>loginResult.
          if js_truthy loginResult then ret (JBool True) else ret (JBool False))))
       (\<lambda>error. ret (JBool False))"

definition ensureLoggedIn :: "runtime \<Rightarrow> login_env \<Rightarrow> jsval eff" where
  "ensureLoggedIn rt w =
     and_then (isLoggedIn (le_first_check w)) (\<lambda>isAlreadyLoggedIn.
       if js_truthy isAlreadyLoggedIn then ret (JBool True)
       else
         and_then (login_with_stored_cookies rt w) (\<lambda>returned.
           case returned of
             Some v \<Rightarrow> ret v
           | None \<Rightarrow> manual_login rt w))"

section \<open>Reference notions and example environments\<close>

text \<open>
  Between awaited calls no call is suspended, and the route table holds one catch-all
  observer when the flag is set and none before.
\<close>

definition monitor_inv :: "NetworkMockPage \<Rightarrow> bool" where
  "monitor_inv this \<longleftrightarrow>
     suspended this = []
     \<and> count_list (routes this) MonitorAll = (if isMonitoringRequests this then 1 else 0)"

text \<open>
  What a run of \<open>isLoggedIn\<close> is expected to answer, read off the page: a lookup that
  fails counts as "not visible"; the account menu shows the log-out link when the menu
  is visible, the click on it and the wait after it succeed, and the link is visible.
\<close>

definition visible :: "login_page \<Rightarrow> string \<Rightarrow> bool" where
  "visible w selector = (case lp_isVisible w selector of Inl e \<Rightarrow> False | Inr b \<Rightarrow> b)"

definition menu_shows_logout :: "login_page \<Rightarrow> bool" where
  "menu_shows_logout w \<longleftrightarrow>
     visible w accountMenu \<and> lp_click w = Inr () \<and> lp_menu_wait w = Inr ()
     \<and> visible w logoutLink"

definition url_logged_in :: "string \<Rightarrow> bool" where
  "url_logged_in url \<longleftrightarrow>
     js_includes url ''www.funda.nl''
     \<or> (\<not> js_includes url ''login.funda.nl'' \<and> js_includes url ''funda.nl'')"

definition verdict :: "login_page \<Rightarrow> bool" where
  "verdict w =
     (case (lp_url_logged w, lp_settle w, lp_url w) of
        (Inr logged, Inr u, Inr url) \<Rightarrow>
          url_logged_in url \<or> list_ex (visible w) loggedInIndicators \<or> menu_shows_logout w
      | _ \<Rightarrow> False)"

text \<open>
  A page on which the first lookup fails while the account menu and its log-out link
  are there.
\<close>

definition flaky_lookup_page :: login_page where
  "flaky_lookup_page =
     \<lparr>lp_url_logged = Inr ''https://login.funda.nl/account/login'',
      lp_settle = Inr (),
      lp_url = Inr ''https://login.funda.nl/account/login'',
      lp_isVisible = (\<lambda>selector.
         if selector = ''text=Account'' then Inl (Error ''strict mode violation'')
         else if selector = accountMenu \<or> selector = logoutLink then Inr True
         else Inr False),
      lp_click = Inr (),
      lp_menu_wait = Inr ()\<rparr>"

text \<open>A page that is gone: every call on it fails.\<close>

definition closed_page :: login_page where
  "closed_page =
     \<lparr>lp_url_logged = Inl (Error ''Target closed''),
      lp_settle = Inl (Error ''Target closed''),
      lp_url = Inl (Error ''Target closed''),
      lp_isVisible = (\<lambda>selector. Inl (Error ''Target closed'')),
      lp_click = Inl (Error ''Target closed''),
      lp_menu_wait = Inl (Error ''Target closed'')\<rparr>"

text \<open>
  The challenge is still there at elapsed time \<open>t\<close>: the title of the challenge page
  is visible and the login form is not (a failed lookup counting as "not visible").
  It never clears when that holds, and the wait between polls succeeds, at every
  elapsed time below the ceiling.
\<close>

definition still_there :: "captcha_page \<Rightarrow> nat \<Rightarrow> bool" where
  "still_there w t \<longleftrightarrow>
     (case cp_stillOnCaptchaPage w t of Inl e \<Rightarrow> False | Inr b \<Rightarrow> b)
     \<and> \<not> (case cp_loginFormVisible w t of Inl e \<Rightarrow> False | Inr b \<Rightarrow> b)"

definition never_clears :: "captcha_page \<Rightarrow> bool" where
  "never_clears w \<longleftrightarrow> (\<forall>t < timeout. still_there w t \<and> cp_poll_wait w t = Inr ())"

text \<open>The two lookups of one poll.\<close>

definition tick_events :: "event list" where
  "tick_events = [IsVisible captchaPageTitleLocator, IsVisible loginFormLocator]"

text \<open>
  A headless run (\<^verbatim>\<open>HEADLESS\<close> unset) that meets the image-selection gate only; the
  challenge leaves the page while the handler waits.
\<close>

definition image_gate_page :: captcha_page where
  "image_gate_page =
     \<lparr>cp_HEADLESS = None, cp_accessDenied = Inr False, cp_reload = Inr (), cp_reload_wait = Inr (),
      cp_captchaPage = Inr False, cp_stillOnCaptchaPage = (\<lambda>t. Inr False),
      cp_loginFormVisible = (\<lambda>t. Inr False), cp_poll_wait = (\<lambda>t. Inr ()),
      cp_captcha_settle = Inr (), cp_imageSelect = Inr True, cp_imageGone = Inr (),
      cp_image_settle = Inr (), cp_url = Inr ''https://login.funda.nl/account/login'',
      cp_goto = Inr (), cp_goto_wait = Inr ()\<rparr>"

text \<open>An interactive run (\<^verbatim>\<open>HEADLESS=false\<close>) in which nobody solves the checkbox gate.\<close>

definition stuck_captcha_page :: captcha_page where
  "stuck_captcha_page =
     \<lparr>cp_HEADLESS = Some ''false'', cp_accessDenied = Inr False, cp_reload = Inr (),
      cp_reload_wait = Inr (), cp_captchaPage = Inr True,
      cp_stillOnCaptchaPage = (\<lambda>t. Inr True), cp_loginFormVisible = (\<lambda>t. Inr False),
      cp_poll_wait = (\<lambda>t. Inr ()), cp_captcha_settle = Inr (), cp_imageSelect = Inr False,
      cp_imageGone = Inr (), cp_image_settle = Inr (),
      cp_url = Inr ''https://login.funda.nl/account/login'',
      cp_goto = Inr (), cp_goto_wait = Inr ()\<rparr>"

definition default_options :: captcha_options where
  "default_options = \<lparr>returnPath = None, useMainSite = None\<rparr>"

text \<open>
  A runtime for the examples below; none of them reaches a conversion that the runtime
  decides.
\<close>

definition example_runtime :: runtime where
  "example_runtime = \<lparr>rt_get = (\<lambda>v key. JUndefined), rt_gt_zero = (\<lambda>v. False)\<rparr>"

text \<open>Fixture files as the suite ships them, in outline, and no state file.\<close>

definition fixture_data :: "(string \<times> jsval) list" where
  "fixture_data =
     [(''search'', JObj [(''location'', JStr ''Amsterdam'')]),
      (''mockApi'', JObj [(''response'', JObj [(''data'', JArr [])])])]"

definition test_user :: jsval where
  "test_user = JObj [(''email'', JStr ''user@example.com''), (''password'', JStr ''secret'')]"

definition credentials_data :: "(string \<times> jsval) list" where
  "credentials_data = [(''users'', JObj [(''testUser'', test_user)])]"

definition fixture_fs :: filesystem where
  "fixture_fs path =
     (if path = testDataPath then Content (Json (JObj fixture_data))
      else if path = credentialsPath then Content (Json (JObj credentials_data))
      else Missing)"


text \<open>
  The notions in which the login orchestration is described: the state the snapshot
  file parses to; whether it passes the check of the code; the value of its
  \<^verbatim>\<open>cookies\<close> property; whether it is an object with a non-empty \<^verbatim>\<open>cookies\<close> array;
  whether it has the shape of a snapshot at all (an object whose \<^verbatim>\<open>cookies\<close> property is
  absent or an array, or a falsy value); whether the stored cookies log the user in;
  whether the manual login does.
\<close>

definition stored_state :: "login_env \<Rightarrow> jsval option" where
  "stored_state w =
     (case le_fs w storageStatePath of Content (Json state) \<Rightarrow> Some state | _ \<Rightarrow> None)"

definition passes_cookie_check :: "runtime \<Rightarrow> jsval \<Rightarrow> bool" where
  "passes_cookie_check rt state =
     (case has_cookies rt state of Inl e \<Rightarrow> False | Inr v \<Rightarrow> js_truthy v)"

definition stored_cookies :: "runtime \<Rightarrow> jsval \<Rightarrow> jsval" where
  "stored_cookies rt state = (case js_get rt state ''cookies'' of Inl e \<Rightarrow> JUndefined | Inr c \<Rightarrow> c)"



definition cookie_login :: "runtime \<Rightarrow> login_env \<Rightarrow> bool" where
  "cookie_login rt w \<longleftrightarrow>
     (case stored_state w of
        None \<Rightarrow> False
      | Some state \<Rightarrow>
          passes_cookie_check rt state \<and> le_addCookies w = Inr () \<and> le_goto w = Inr ()
          \<and> verdict (le_second_check w))"

definition manual_login_succeeds :: "runtime \<Rightarrow> login_env \<Rightarrow> bool" where
  "manual_login_succeeds rt w \<longleftrightarrow>
     (case snd (getCredentials rt (le_fs w) None) of
        Inl e \<Rightarrow> False
      | Inr credentials \<Rightarrow>
          (case le_login w credentials of Inl e \<Rightarrow> False | Inr loginResult \<Rightarrow> js_truthy loginResult))"

text \<open>The calls of the first \<^verbatim>\<open>try\<close> block once the snapshot has been parsed.\<close>

definition cookie_events :: "runtime \<Rightarrow> login_env \<Rightarrow> jsval \<Rightarrow> event list" where
  "cookie_events rt w state =
     (if passes_cookie_check rt state then
        AddCookies (stored_cookies rt state) #
        (case le_addCookies w of
           Inl e \<Rightarrow> []
         | Inr u \<Rightarrow>
             Goto ''https://www.funda.nl'' #
             (case le_goto w of Inl e \<Rightarrow> [] | Inr u' \<Rightarrow> fst (isLoggedIn (le_second_check w))))
      else [])"




text \<open>Pages and environments for the examples.\<close>

definition logged_out_page :: login_page where
  "logged_out_page =
     \<lparr>lp_url_logged = Inr ''https://login.funda.nl/account/login'',
      lp_settle = Inr (),
      lp_url = Inr ''https://login.funda.nl/account/login'',
      lp_isVisible = (\<lambda>selector. Inr (selector \<in> set notLoggedInIndicators)),
      lp_click = Inr (),
      lp_menu_wait = Inr ()\<rparr>"


text \<open>A first run: no snapshot on disk, and the manual login succeeds.\<close>

definition first_run_env :: login_env where
  "first_run_env =
     \<lparr>le_first_check = logged_out_page, le_fs = fixture_fs, le_addCookies = Inr (),
      le_goto = Inr (), le_second_check = logged_out_page,
      le_login = (\<lambda>credentials. Inr (JBool True))\<rparr>"

text \<open>A later run: the snapshot holds one cookie, and it still logs the user in.\<close>

definition snapshot_state :: jsval where
  "snapshot_state =
     JObj [(''cookies'', JArr [JObj [(''name'', JStr ''a''), (''value'', JStr ''b'')]])]"






text \<open>No file on disk at all.\<close>

definition no_files_env :: login_env where
  "no_files_env = first_run_env\<lparr>le_fs := (\<lambda>path. Missing)\<rparr>"

section \<open>Properties of the network-mock harness\<close>

lemma js_includes_iff: "js_includes url pat \<longleftrightarrow> (\<exists>before after. url = before @ pat @ after)"
proof (induction url)
  case Nil
  then show ?case by auto
next
  case (Cons c cs)
  show ?case
  proof
    assume "js_includes (c # cs) pat"
    then consider "prefix pat (c # cs)" | "js_includes cs pat" by auto
    then show "\<exists>before after. c # cs = before @ pat @ after"
    proof cases
      case 1
      then obtain after where "c # cs = pat @ after" by (auto simp: prefix_def)
      then have "c # cs = [] @ pat @ after" by simp
      then show ?thesis by blast
    next
      case 2
      with Cons.IH obtain before after where "cs = before @ pat @ after" by blast
      then have "c # cs = (c # before) @ pat @ after" by simp
      then show ?thesis by blast
    qed
  next
    assume "\<exists>before after. c # cs = before @ pat @ after"
    then obtain before after where eq: "c # cs = before @ pat @ after" by blast
    show "js_includes (c # cs) pat"
    proof (cases before)
      case Nil
      with eq have "prefix pat (c # cs)" by (simp add: prefix_def)
      then show ?thesis by simp
    next
      case (Cons b bs)
      with eq have "cs = bs @ pat @ after" by simp
      with Cons.IH have "js_includes cs pat" by blast
      then show ?thesis by simp
    qed
  qed
qed

text \<open>
  C2. For every harness state and every query string \<open>S\<close>, \<open>wasUrlPatternIntercepted\<close>
  answers true exactly when some address of the log contains \<open>S\<close> as a literal
  substring: the address is \<open>before @ S @ after\<close>, character for character.
\<close>

theorem wasUrlPatternIntercepted_iff_substring:
  "wasUrlPatternIntercepted this S \<longleftrightarrow>
     (\<exists>url \<in> set (interceptedUrls this). \<exists>before after. url = before @ S @ after)"
proof -
  have "wasUrlPatternIntercepted this S \<longleftrightarrow>
          filter (\<lambda>url. js_includes url S) (interceptedUrls this) \<noteq> []"
    by (simp add: wasUrlPatternIntercepted_def)
  also have "\<dots> \<longleftrightarrow> (\<exists>url \<in> set (interceptedUrls this). js_includes url S)"
    by (simp add: filter_empty_conv)
  also have "\<dots> \<longleftrightarrow> (\<exists>url \<in> set (interceptedUrls this). \<exists>before after. url = before @ S @ after)"
    by (simp add: js_includes_iff)
  finally show ?thesis .
qed

theorem wasUrlPatternIntercepted_iff_substring_witness:
  "wasUrlPatternIntercepted
     (new_NetworkMockPage\<lparr>interceptedUrls := [''https://www.funda.nl/search?q=1'']\<rparr>) ''search''"
proof -
  have "''https://www.funda.nl/search?q=1'' = ''https://www.funda.nl/'' @ ''search'' @ ''?q=1''"
    by simp
  then have "\<exists>url \<in> set [''https://www.funda.nl/search?q=1''].
               \<exists>before after. url = before @ ''search'' @ after"
    by (metis list.set_intros(1))
  then show ?thesis
    using wasUrlPatternIntercepted_iff_substring
      [of "new_NetworkMockPage\<lparr>interceptedUrls := [''https://www.funda.nl/search?q=1'']\<rparr>" "''search''"]
    by simp
qed

text \<open>The comparison is case-sensitive, and a \<^verbatim>\<open>*\<close> in the query is a character like any other.\<close>

lemma wasUrlPatternIntercepted_case_sensitive:
  "\<not> wasUrlPatternIntercepted
       (new_NetworkMockPage\<lparr>interceptedUrls := [''https://www.funda.nl/search?q=1'']\<rparr>) ''Search''"
  by (simp add: wasUrlPatternIntercepted_def)

lemma wasUrlPatternIntercepted_no_globbing:
  "\<not> wasUrlPatternIntercepted
       (new_NetworkMockPage\<lparr>interceptedUrls := [''https://www.funda.nl/search?q=1'']\<rparr>) ''funda*search''"
  by (simp add: wasUrlPatternIntercepted_def)

lemma interceptedUrls_resume:
  "interceptedUrls (snd (resume i c outcome this)) = interceptedUrls this"
  by (cases c; cases outcome) (simp_all add: monitoring_installed_def)

lemma interceptedUrls_step: "interceptedUrls (step this opn) = interceptedUrls this @ observed this opn"
proof (cases opn)
  case StartRequestMonitoring
  then show ?thesis by (simp add: startRequestMonitoring_call_def)
next
  case (SetupMockResponse urlPattern mockData)
  then show ?thesis by (simp add: setupMockResponse_call_def startRequestMonitoring_call_def)
next
  case (WasUrlPatternIntercepted pattern)
  then show ?thesis by simp
next
  case (Settle i outcome)
  then show ?thesis by (simp add: interceptedUrls_resume)
next
  case (HandleRoute i url)
  show ?thesis
  proof (cases "i < length (routes this)")
    case True
    then show ?thesis using HandleRoute by (cases "routes this ! i") simp_all
  next
    case False
    then show ?thesis using HandleRoute by simp
  qed
qed

text \<open>
  C9. The log of intercepted addresses is append-only and keeps the order of arrival:
  after any sequence of harness operations (method calls, however they overlap, and
  handler runs) the log is
  the old log followed by the addresses the catch-all observer was run for, one entry
  for each run, in order, duplicates included. So the old log is a prefix of the new
  one: nothing is removed and nothing is reordered.
\<close>

theorem interceptedUrls_append_only:
  "interceptedUrls (run this ops) = interceptedUrls this @ arrivals this ops
   \<and> prefix (interceptedUrls this) (interceptedUrls (run this ops))"
proof -
  have "interceptedUrls (run this ops) = interceptedUrls this @ arrivals this ops"
  proof (induction ops arbitrary: this)
    case Nil
    then show ?case by simp
  next
    case (Cons opn ops)
    have "interceptedUrls (run this (opn # ops)) = interceptedUrls (step this opn) @ arrivals (step this opn) ops"
      using Cons.IH by simp
    then show ?case by (simp add: interceptedUrls_step)
  qed
  then show ?thesis by simp
qed

theorem interceptedUrls_append_only_witness:
  "interceptedUrls (run new_NetworkMockPage
      [StartRequestMonitoring, Settle 0 (Inr ()), HandleRoute 0 ''a'',
       SetupMockResponse ''**/search?*'' JNull, Settle 0 (Inr ()),
       HandleRoute 0 ''b'', HandleRoute 1 ''c'', WasUrlPatternIntercepted ''a'', HandleRoute 0 ''a''])
   = [''a'', ''b'', ''a'']"
proof -
  let ?ops = "[StartRequestMonitoring, Settle 0 (Inr ()), HandleRoute 0 ''a'',
       SetupMockResponse ''**/search?*'' JNull, Settle 0 (Inr ()),
       HandleRoute 0 ''b'', HandleRoute 1 ''c'', WasUrlPatternIntercepted ''a'', HandleRoute 0 ''a'']"
  have a: "arrivals new_NetworkMockPage ?ops = [''a'', ''b'', ''a'']"
    by code_simp
  have n: "interceptedUrls new_NetworkMockPage = []"
    by (simp add: new_NetworkMockPage_def)
  from interceptedUrls_append_only [of new_NetworkMockPage ?ops]
  have "interceptedUrls (run new_NetworkMockPage ?ops)
          = interceptedUrls new_NetworkMockPage @ arrivals new_NetworkMockPage ?ops"
    by (rule conjunct1)
  then show ?thesis
    by (simp only: a n append_Nil)
qed

text \<open>
  With the flag set a call of \<open>startRequestMonitoring\<close> returns at once and changes
  nothing, and \<open>setupMockResponse\<close> asks for the route of its pattern only.
\<close>

lemma startRequestMonitoring_flag_set:
  "isMonitoringRequests this \<Longrightarrow> startRequestMonitoring_call this = (Returns, this)"
  by (simp add: startRequestMonitoring_call_def)

lemma setupMockResponse_flag_set:
  "isMonitoringRequests this \<Longrightarrow>
   run this (awaited_ops this (AwaitSetupMockResponse urlPattern mockData routed (Inr ())))
     = this\<lparr>routes := routes this @ [Mock urlPattern mockData]\<rparr>"
  by (simp add: setupMockResponse_call_def startRequestMonitoring_call_def remove_nth_def)

text \<open>
  Calls that are awaited one after the other install the observer once: each awaited
  call keeps \<open>monitor_inv\<close>, whatever the outcome of its routes.
\<close>

lemma monitor_inv_awaited: "monitor_inv this \<Longrightarrow> monitor_inv (run this (awaited_ops this a))"
proof (cases a)
  case (AwaitStartRequestMonitoring routed)
  assume "monitor_inv this"
  then show ?thesis using AwaitStartRequestMonitoring
    by (cases routed)
       (auto simp: monitor_inv_def startRequestMonitoring_call_def monitoring_installed_def
          remove_nth_def)
next
  case (AwaitSetupMockResponse urlPattern mockData routed mocked)
  assume "monitor_inv this"
  then show ?thesis using AwaitSetupMockResponse
    by (cases routed; cases mocked)
       (auto simp: monitor_inv_def setupMockResponse_call_def startRequestMonitoring_call_def
          monitoring_installed_def remove_nth_def)
next
  case (AskWasUrlPatternIntercepted pattern)
  assume "monitor_inv this"
  then show ?thesis using AskWasUrlPatternIntercepted by simp
next
  case (RouteHandled i url)
  assume inv: "monitor_inv this"
  show ?thesis
  proof (cases "i < length (routes this)")
    case True
    then show ?thesis using RouteHandled inv
      by (cases "routes this ! i") (simp_all add: monitor_inv_def)
  next
    case False
    then show ?thesis using RouteHandled inv by simp
  qed
qed

lemma monitor_inv_sequential_run: "monitor_inv this \<Longrightarrow> monitor_inv (sequential_run this as)"
  by (induction as arbitrary: this) (simp_all add: monitor_inv_awaited)

lemma monitor_inv_new: "monitor_inv new_NetworkMockPage"
  by (simp add: monitor_inv_def new_NetworkMockPage_def)

lemma sequential_calls_install_once:
  "count_list (routes (sequential_run new_NetworkMockPage as)) MonitorAll \<le> 1"
proof -
  have "monitor_inv (sequential_run new_NetworkMockPage as)"
    by (rule monitor_inv_sequential_run [OF monitor_inv_new])
  then show ?thesis
    by (simp add: monitor_inv_def split: if_splits)
qed

lemma awaited_startRequestMonitoring_twice:
  "monitor_inv this \<Longrightarrow>
   sequential_run this [AwaitStartRequestMonitoring (Inr ()), AwaitStartRequestMonitoring routed]
     = sequential_run this [AwaitStartRequestMonitoring (Inr ())]"
  by (auto simp: monitor_inv_def startRequestMonitoring_call_def monitoring_installed_def
      remove_nth_def)


section \<open>Runs: projections of the combinators\<close>

lemma snd_and_then: "snd (and_then m f) = (case snd m of Inl e \<Rightarrow> Inl e | Inr v \<Rightarrow> snd (f v))"
  by (simp add: and_then_def split: prod.splits sum.splits)

lemma fst_and_then:
  "fst (and_then m f) = (case snd m of Inl e \<Rightarrow> fst m | Inr v \<Rightarrow> fst m @ fst (f v))"
  by (simp add: and_then_def split: prod.splits sum.splits)

lemma snd_try_catch: "snd (try_catch m h) = (case snd m of Inl e \<Rightarrow> snd (h e) | Inr v \<Rightarrow> Inr v)"
  by (simp add: try_catch_def split: prod.splits sum.splits)

lemma fst_try_catch:
  "fst (try_catch m h) = (case snd m of Inl e \<Rightarrow> fst m @ fst (h e) | Inr v \<Rightarrow> fst m)"
  by (simp add: try_catch_def split: prod.splits sum.splits)

lemma eff_basic:
  "fst (ret v) = []" "snd (ret v) = Inr v"
  "fst (throw e) = []" "snd (throw e) = Inl e"
  "fst (call ev outcome) = [ev]" "snd (call ev outcome) = outcome"
  "fst (of_result r) = []" "snd (of_result r) = r"
  by (simp_all add: ret_def throw_def call_def of_result_def)

lemma is_visible_eq:
  "is_visible selector outcome =
     ([IsVisible selector], Inr (case outcome of Inl e \<Rightarrow> False | Inr b \<Rightarrow> b))"
  by (simp add: is_visible_def try_catch_def call_def ret_def split: sum.splits)

lemmas eff_simps = snd_and_then fst_and_then snd_try_catch fst_try_catch eff_basic is_visible_eq

lemma eff_eqI: "fst m = evs \<Longrightarrow> snd m = r \<Longrightarrow> m = (evs, r)"
  by auto

section \<open>Properties of the login-state detector\<close>

lemma snd_first_visible: "snd (first_visible w xs) = Inr (list_ex (visible w) xs)"
  by (induction xs) (simp_all add: eff_simps visible_def)

lemma snd_account_menu_logout: "snd (account_menu_logout w) = Inr (menu_shows_logout w)"
  by (simp add: account_menu_logout_def eff_simps menu_shows_logout_def visible_def
      split: sum.splits)

lemma snd_isLoggedIn: "snd (isLoggedIn w) = Inr (JBool (verdict w))"
  by (simp add: isLoggedIn_def snd_and_then snd_try_catch eff_basic snd_first_visible
      snd_account_menu_logout verdict_def url_logged_in_def
      split: sum.splits)

text \<open>
  C5, as the code has it. \<open>isLoggedIn\<close> always returns a boolean and never raises an
  error, whatever the page and whatever the outcome of each call on it. A lookup that
  fails counts as "not visible" and the check goes on, so a later indicator can still
  make the result true; a failure of the click on the account menu, or of the wait
  after it, makes the menu check negative; a failure of reading the address or of the
  initial wait makes the result false.
\<close>

theorem isLoggedIn_returns_boolean:
  "snd (isLoggedIn w) = Inr (JBool (verdict w))
   \<and> (\<exists>b. snd (isLoggedIn w) = Inr (JBool b))
   \<and> ((\<exists>e. lp_url_logged w = Inl e \<or> lp_settle w = Inl e \<or> lp_url w = Inl e)
        \<longrightarrow> snd (isLoggedIn w) = Inr (JBool False))"
proof -
  have "(\<exists>e. lp_url_logged w = Inl e \<or> lp_settle w = Inl e \<or> lp_url w = Inl e) \<longrightarrow> \<not> verdict w"
    by (auto simp: verdict_def split: sum.splits)
  then show ?thesis
    by (simp add: snd_isLoggedIn)
qed

theorem isLoggedIn_returns_boolean_witness:
  "lp_url closed_page = Inl (Error ''Target closed'')
   \<and> snd (isLoggedIn closed_page) = Inr (JBool False)"
proof -
  have e: "lp_url closed_page = Inl (Error ''Target closed'')"
    by (simp add: closed_page_def)
  then have "\<exists>e. lp_url_logged closed_page = Inl e \<or> lp_settle closed_page = Inl e
               \<or> lp_url closed_page = Inl e"
    by blast
  with isLoggedIn_returns_boolean [of closed_page] e show ?thesis
    by blast
qed

text \<open>
  The claim as it is written also says that any internal error makes the result false.
  On \<open>flaky_lookup_page\<close> the lookup of \<^verbatim>\<open>text=Account\<close> is made and fails, and the run
  goes on to the account menu and returns true.
\<close>

theorem isLoggedIn_error_then_true_counterexample:
  "lp_isVisible flaky_lookup_page ''text=Account'' = Inl (Error ''strict mode violation'')
   \<and> isLoggedIn flaky_lookup_page =
        ([PageUrl, WaitForTimeout 1000, PageUrl, IsVisible ''text=Account'',
          IsVisible accountMenu, Click accountMenu, WaitForTimeout 500, IsVisible logoutLink],
         Inr (JBool True))"
proof -
  have "lp_isVisible flaky_lookup_page ''text=Account'' = Inl (Error ''strict mode violation'')"
    by (simp add: flaky_lookup_page_def)
  moreover have "isLoggedIn flaky_lookup_page =
        ([PageUrl, WaitForTimeout 1000, PageUrl, IsVisible ''text=Account'',
          IsVisible accountMenu, Click accountMenu, WaitForTimeout 500, IsVisible logoutLink],
         Inr (JBool True))"
    by (intro eff_eqI)
       (simp_all add: isLoggedIn_def account_menu_logout_def flaky_lookup_page_def
          loggedInIndicators_def accountMenu_def logoutLink_def eff_simps)
  ultimately show ?thesis by blast
qed

section \<open>Properties of the challenge handler\<close>

declare poll_loop.simps [simp del]

lemma poll_loop_done: "\<not> t < timeout \<Longrightarrow> poll_loop w t = ret t"
  by (subst poll_loop.simps) simp

lemma poll_loop_cleared:
  "t < timeout \<Longrightarrow> \<not> still_there w t \<Longrightarrow> poll_loop w t = (tick_events, Inr t)"
  by (subst poll_loop.simps, intro eff_eqI)
     (auto simp: eff_simps still_there_def tick_events_def split: sum.splits)

lemma poll_loop_wait_fails:
  "t < timeout \<Longrightarrow> still_there w t \<Longrightarrow> cp_poll_wait w t = Inl e \<Longrightarrow>
   poll_loop w t = (tick_events @ [WaitForTimeout checkInterval], Inl e)"
  by (subst poll_loop.simps, intro eff_eqI)
     (auto simp: eff_simps still_there_def tick_events_def split: sum.splits)

lemma poll_loop_again:
  "t < timeout \<Longrightarrow> still_there w t \<Longrightarrow> cp_poll_wait w t = Inr u \<Longrightarrow>
   poll_loop w t =
     (tick_events @ WaitForTimeout checkInterval # fst (poll_loop w (t + checkInterval)),
      snd (poll_loop w (t + checkInterval)))"
  by (subst poll_loop.simps, intro eff_eqI)
     (auto simp: eff_simps still_there_def tick_events_def split: sum.splits)

lemma count_tick_events: "count_list tick_events (WaitForTimeout n) = 0"
  by (simp add: tick_events_def)

text \<open>The elapsed time the loop ends with is the interval times the number of waits made.\<close>

lemma poll_loop_elapsed:
  "snd (poll_loop w t) = Inr r \<Longrightarrow>
   r = t + checkInterval * count_list (fst (poll_loop w t)) (WaitForTimeout checkInterval)"
proof (induction w t arbitrary: r rule: poll_loop.induct)
  case (1 w t)
  show ?case
  proof (cases "t < timeout")
    case False
    then show ?thesis using "1.prems" by (simp add: poll_loop_done eff_basic)
  next
    case lt: True
    show ?thesis
    proof (cases "still_there w t")
      case False
      then show ?thesis using lt "1.prems" by (simp add: poll_loop_cleared count_tick_events)
    next
      case st: True
      show ?thesis
      proof (cases "cp_poll_wait w t")
        case (Inl e)
        then show ?thesis using lt st "1.prems" by (simp add: poll_loop_wait_fails)
      next
        case (Inr u)
        from st have c: "\<not> (\<not> True \<or> False)" by simp
        have next_r: "snd (poll_loop w (t + checkInterval)) = Inr r"
          using lt st Inr "1.prems" by (simp add: poll_loop_again)
        have "r = t + checkInterval
                + checkInterval * count_list (fst (poll_loop w (t + checkInterval)))
                    (WaitForTimeout checkInterval)"
          using "1.IH" [OF lt c next_r] .
        then show ?thesis using lt st Inr by (simp add: poll_loop_again count_tick_events)
      qed
    qed
  qed
qed

text \<open>The waits made never add up to more than the ceiling.\<close>

lemma poll_loop_bounded:
  "t \<le> timeout \<Longrightarrow> checkInterval dvd (timeout - t) \<Longrightarrow>
   t + checkInterval * count_list (fst (poll_loop w t)) (WaitForTimeout checkInterval) \<le> timeout"
proof (induction w t rule: poll_loop.induct)
  case (1 w t)
  show ?case
  proof (cases "t < timeout")
    case False
    then show ?thesis using "1.prems" by (simp add: poll_loop_done eff_basic)
  next
    case lt: True
    from "1.prems"(2) obtain k where k: "timeout - t = checkInterval * k"
      by (auto simp: dvd_def)
    with lt have "k \<noteq> 0"
      by (cases k) auto
    then have "checkInterval \<le> checkInterval * k"
      by simp
    with k lt have step: "t + checkInterval \<le> timeout"
      by linarith
    with "1.prems"(2) have dv: "checkInterval dvd (timeout - (t + checkInterval))"
      by (metis diff_diff_left dvd_diff_nat dvd_refl)
    show ?thesis
    proof (cases "still_there w t")
      case False
      then show ?thesis using lt by (simp add: poll_loop_cleared count_tick_events)
    next
      case st: True
      show ?thesis
      proof (cases "cp_poll_wait w t")
        case (Inl e)
        then show ?thesis using lt st step by (simp add: poll_loop_wait_fails count_tick_events)
      next
        case (Inr u)
        from st have c: "\<not> (\<not> True \<or> False)" by simp
        show ?thesis
          using "1.IH" [OF lt c step dv] lt st Inr by (simp add: poll_loop_again count_tick_events)
      qed
    qed
  qed
qed

lemma poll_loop_never_clears:
  assumes "never_clears w" and "k * checkInterval \<le> timeout"
  shows "poll_loop w (timeout - k * checkInterval) =
           (concat (replicate k (tick_events @ [WaitForTimeout checkInterval])), Inr timeout)"
  using assms(2)
proof (induction k)
  case 0
  then show ?case by (simp add: poll_loop_done ret_def)
next
  case (Suc k)
  let ?t = "timeout - Suc k * checkInterval"
  from Suc.prems have lt: "?t < timeout" by (simp add: checkInterval_def timeout_def)
  from Suc.prems have nxt: "?t + checkInterval = timeout - k * checkInterval" by simp
  from assms(1) lt have st: "still_there w ?t" and wt: "cp_poll_wait w ?t = Inr ()"
    by (simp_all add: never_clears_def)
  from Suc have IH: "poll_loop w (timeout - k * checkInterval) =
           (concat (replicate k (tick_events @ [WaitForTimeout checkInterval])), Inr timeout)"
    by simp
  show ?case
    using poll_loop_again [OF lt st wt] IH nxt by simp
qed

lemma wait_for_captcha_timeout:
  assumes "never_clears w"
  shows "wait_for_captcha w =
           (concat (replicate 40 (tick_events @ [WaitForTimeout checkInterval])),
            Inl (Error ''Failed to handle CAPTCHA: CAPTCHA solving timeout exceeded. Test failed.''))"
proof -
  have "40 * checkInterval \<le> timeout" by (simp add: checkInterval_def timeout_def)
  from poll_loop_never_clears [OF assms this]
  have "poll_loop w 0 =
          (concat (replicate 40 (tick_events @ [WaitForTimeout checkInterval])), Inr timeout)"
    by (simp add: checkInterval_def timeout_def)
  then show ?thesis
    by (intro eff_eqI) (simp_all add: wait_for_captcha_def eff_simps)
qed

lemma handlePossibleCaptcha_timeout:
  assumes "\<not> headless (cp_HEADLESS w)" and "cp_captchaPage w = Inr True"
    and "snd (refresh_if_access_denied w) = Inr ()" and "never_clears w"
  shows "handlePossibleCaptcha this options w =
           (fst (refresh_if_access_denied w) @ IsVisible captchaPageTitleLocator
              # concat (replicate 40 (tick_events @ [WaitForTimeout checkInterval])),
            Inl (Error ''Failed to handle CAPTCHA: CAPTCHA solving timeout exceeded. Test failed.''))"
  using assms(1-3) wait_for_captcha_timeout [OF assms(4)]
  by (intro eff_eqI) (simp_all add: handlePossibleCaptcha_def Let_def eff_simps)

text \<open>
  C4. In interactive mode the waiting phase of the checkbox gate terminates. The loop
  is a total function of the page's answers; between two polls it waits the fixed
  \<open>checkInterval\<close> of 3000 ms and adds exactly that to the elapsed time, so the
  elapsed time grows strictly with every iteration and is the interval times the
  number of waits made; the waits never add up to more than the \<open>timeout\<close> of 120000
  ms. When the challenge never clears, the handler makes 40 polls, each followed by a
  wait, and then raises an error; no poll follows the last wait.
\<close>

theorem captcha_wait_reaches_ceiling:
  "checkInterval = 3000 \<and> timeout = 120000
   \<and> (\<forall>r. snd (poll_loop w 0) = Inr r \<longrightarrow>
         r = checkInterval * count_list (fst (poll_loop w 0)) (WaitForTimeout checkInterval))
   \<and> checkInterval * count_list (fst (poll_loop w 0)) (WaitForTimeout checkInterval) \<le> timeout
   \<and> (\<forall>t u. t < timeout \<and> still_there w t \<and> cp_poll_wait w t = Inr u \<longrightarrow>
         t < t + checkInterval
         \<and> poll_loop w t =
             (tick_events @ WaitForTimeout checkInterval # fst (poll_loop w (t + checkInterval)),
              snd (poll_loop w (t + checkInterval))))
   \<and> (\<not> headless (cp_HEADLESS w) \<and> cp_captchaPage w = Inr True
        \<and> snd (refresh_if_access_denied w) = Inr () \<and> never_clears w \<longrightarrow>
        handlePossibleCaptcha this options w =
          (fst (refresh_if_access_denied w) @ IsVisible captchaPageTitleLocator
             # concat (replicate 40 (tick_events @ [WaitForTimeout checkInterval])),
           Inl (Error ''Failed to handle CAPTCHA: CAPTCHA solving timeout exceeded. Test failed.'')))"
proof -
  have a: "\<forall>r. snd (poll_loop w 0) = Inr r \<longrightarrow>
         r = checkInterval * count_list (fst (poll_loop w 0)) (WaitForTimeout checkInterval)"
    using poll_loop_elapsed [of w 0] by simp
  have "checkInterval dvd (timeout - 0)"
    by (simp add: checkInterval_def timeout_def)
  then have b: "checkInterval * count_list (fst (poll_loop w 0)) (WaitForTimeout checkInterval)
                 \<le> timeout"
    using poll_loop_bounded [of 0 w] by simp
  have c: "\<forall>t u. t < timeout \<and> still_there w t \<and> cp_poll_wait w t = Inr u \<longrightarrow>
         t < t + checkInterval
         \<and> poll_loop w t =
             (tick_events @ WaitForTimeout checkInterval # fst (poll_loop w (t + checkInterval)),
              snd (poll_loop w (t + checkInterval)))"
    using poll_loop_again [of _ w] by (simp add: checkInterval_def)
  have d: "checkInterval = 3000 \<and> timeout = 120000"
    by (simp add: checkInterval_def timeout_def)
  from a b c d handlePossibleCaptcha_timeout [of w this options] show ?thesis
    by blast
qed

theorem captcha_wait_reaches_ceiling_witness:
  "\<not> headless (cp_HEADLESS stuck_captcha_page) \<and> never_clears stuck_captcha_page
   \<and> handlePossibleCaptcha (new_BasePage None) default_options stuck_captcha_page =
       (IsVisible accessDeniedLocator # IsVisible captchaPageTitleLocator
          # concat (replicate 40 (tick_events @ [WaitForTimeout checkInterval])),
        Inl (Error ''Failed to handle CAPTCHA: CAPTCHA solving timeout exceeded. Test failed.''))"
proof -
  have h: "\<not> headless (cp_HEADLESS stuck_captcha_page)"
    by (simp add: stuck_captcha_page_def headless_def)
  have v: "cp_captchaPage stuck_captcha_page = Inr True"
    by (simp add: stuck_captcha_page_def)
  have r: "refresh_if_access_denied stuck_captcha_page = ([IsVisible accessDeniedLocator], Inr ())"
    by (intro eff_eqI) (simp_all add: refresh_if_access_denied_def stuck_captcha_page_def eff_simps)
  have n: "never_clears stuck_captcha_page"
    by (simp add: never_clears_def still_there_def stuck_captcha_page_def)
  from h v r n
    captcha_wait_reaches_ceiling [of stuck_captcha_page "new_BasePage None" default_options]
  show ?thesis
    by simp
qed

text \<open>
  The checkbox gate in a headless run: the handler raises its error right after the
  lookup that found the challenge page, and makes no further call.
\<close>

lemma headless_checkbox_gate_fails_fast:
  assumes "headless (cp_HEADLESS w)" and "cp_captchaPage w = Inr True"
    and "snd (refresh_if_access_denied w) = Inr ()"
  shows "handlePossibleCaptcha this options w =
           (fst (refresh_if_access_denied w) @ [IsVisible captchaPageTitleLocator],
            Inl (Error ''CAPTCHA detected in headless mode. Test cannot proceed automatically.''))"
  using assms
  by (intro eff_eqI) (simp_all add: handlePossibleCaptcha_def Let_def eff_simps)

text \<open>
  C3. In a headless run a challenge of either type is to make the handler raise its
  error at the first detection, without waiting. The checkbox gate does (the lemma
  above). The image-selection gate has no check of the run mode: on
  \<open>image_gate_page\<close>, a headless run in which only the image-selection challenge is
  visible, the handler enters the wait of up to 120000 ms for the challenge to leave
  the page and, when it does, returns without raising an error.
\<close>

theorem headless_image_gate_waits:
  "headless (cp_HEADLESS image_gate_page) \<and> cp_imageSelect image_gate_page = Inr True
   \<and> handlePossibleCaptcha (new_BasePage None) default_options image_gate_page
       = ([IsVisible accessDeniedLocator, IsVisible captchaPageTitleLocator,
           IsVisible imageSelectLocator, WaitForChallengeGone 120000, WaitForTimeout 2000, PageUrl],
          Inr ())"
proof -
  have "headless (cp_HEADLESS image_gate_page)"
    by (simp add: image_gate_page_def headless_def)
  moreover have "cp_imageSelect image_gate_page = Inr True"
    by (simp add: image_gate_page_def)
  moreover have "handlePossibleCaptcha (new_BasePage None) default_options image_gate_page
       = ([IsVisible accessDeniedLocator, IsVisible captchaPageTitleLocator,
           IsVisible imageSelectLocator, WaitForChallengeGone 120000, WaitForTimeout 2000, PageUrl],
          Inr ())"
    by (intro eff_eqI)
       (simp_all add: handlePossibleCaptcha_def refresh_if_access_denied_def default_options_def
          wait_for_image_challenge_def renavigate_def image_gate_page_def Let_def eff_simps)
  ultimately show ?thesis by blast
qed

section \<open>Properties of the session-validity check\<close>

lemma isStateFileValid_nonempty:
  "fs p = Content (Json (JObj kvs)) \<Longrightarrow> map_of kvs ''cookies'' = Some (JArr (c # cs)) \<Longrightarrow>
   snd (isStateFileValid rt fs p) = Inr (JBool True)"
  by (simp add: isStateFileValid_def fs_access_def fs_readFile_def JSON_parse_def has_cookies_def
      eff_simps)

lemma isStateFileValid_empty:
  "fs p = Content (Json (JObj kvs)) \<Longrightarrow> map_of kvs ''cookies'' = Some (JArr []) \<Longrightarrow>
   snd (isStateFileValid rt fs p) = Inr (JBool False)"
  by (simp add: isStateFileValid_def fs_access_def fs_readFile_def JSON_parse_def has_cookies_def
      eff_simps)

lemma isStateFileValid_no_file:
  "fs p = Missing \<or> fs p = Unreadable \<or> fs p = Content NotJson \<Longrightarrow>
   snd (isStateFileValid rt fs p) = Inr (JBool False)"
  by (auto simp: isStateFileValid_def fs_access_def fs_readFile_def JSON_parse_def has_cookies_def
      eff_simps)

text \<open>
  The examples of the specification: the snapshot \<^verbatim>\<open>{"cookies":[{"name":"a","value":"b"}]}\<close>
  is valid, the snapshot \<^verbatim>\<open>{"cookies":[]}\<close> and a missing file are not.
\<close>

lemma isStateFileValid_examples:
  "snd (isStateFileValid rt (\<lambda>path. Content (Json snapshot_state)) filePath) = Inr (JBool True)"
  "snd (isStateFileValid rt (\<lambda>path. Content (Json (JObj [(''cookies'', JArr [])]))) filePath)
     = Inr (JBool False)"
  "snd (isStateFileValid rt (\<lambda>path. Missing) filePath) = Inr (JBool False)"
  by (simp_all add: isStateFileValid_nonempty isStateFileValid_empty isStateFileValid_no_file
      snapshot_state_def)

lemma cookies_not_inherited: "object_prototype ''cookies'' = JUndefined"
  by (simp add: object_prototype_def object_prototype_names_def)

lemma isStateFileValid_no_cookies:
  "fs p = Content (Json (JObj kvs)) \<Longrightarrow> map_of kvs ''cookies'' = None \<Longrightarrow>
   snd (isStateFileValid rt fs p) = Inr JUndefined"
  by (simp add: isStateFileValid_def fs_access_def fs_readFile_def JSON_parse_def has_cookies_def
      eff_simps cookies_not_inherited)

text \<open>
  C1. For a snapshot that parses to an object with a non-empty \<^verbatim>\<open>cookies\<close> array the
  check returns true, for one with an empty array it returns false, and for a missing,
  unreadable or non-JSON file it returns false (the three lemmas above). For a
  snapshot without a \<^verbatim>\<open>cookies\<close> property the claim says false as well, and the
  documentation of the function promises a boolean; the code returns the value of
  \<^verbatim>\<open>state && state.cookies && ...\<close>, which for the snapshot \<^verbatim>\<open>{}\<close> is \<^verbatim>\<open>undefined\<close>.
\<close>

theorem isStateFileValid_missing_cookies_undefined:
  "isStateFileValid rt (\<lambda>path. Content (Json (JObj []))) ''data/state.json''
     = ([FsAccess ''data/state.json'', FsReadFile ''data/state.json''], Inr JUndefined)"
  by (intro eff_eqI)
     (simp_all add: isStateFileValid_def fs_access_def fs_readFile_def JSON_parse_def has_cookies_def
      eff_simps cookies_not_inherited)



section \<open>Properties of the fixture lookups\<close>

lemma loadTestData_object:
  "fs p = Content (Json v) \<Longrightarrow> loadTestData fs p = ([FsReadFile p], Inr v)"
  by (intro eff_eqI) (simp_all add: loadTestData_def fs_readFile_def JSON_parse_def eff_simps)

lemma loadTestData_fallback:
  "fs p = Missing \<or> fs p = Unreadable \<or> fs p = Content NotJson \<Longrightarrow>
   loadTestData fs p = ([FsReadFile p], Inr (JObj []))"
  by (intro eff_eqI) (auto simp: loadTestData_def fs_readFile_def JSON_parse_def eff_simps)

lemma snd_loadTestData:
  "snd (loadTestData fs p) = Inr (case fs p of Content (Json v) \<Rightarrow> v | _ \<Rightarrow> JObj [])"
  by (simp add: loadTestData_def fs_readFile_def JSON_parse_def eff_simps
      split: disk_file.splits content.splits)

lemma getTestData_unknown_key:
  assumes "fs testDataPath = Content (Json (JObj kvs))" and "map_of kvs key = None"
    and "key \<notin> set object_prototype_names"
  shows "snd (getTestData rt fs key) =
           Inl (Error (''Test data for type '' @ [CHR 0x22] @ key @ [CHR 0x22] @ '' not found in data file''))"
  using assms
  by (simp add: getTestData_def snd_loadTestData eff_simps object_prototype_def)

lemma getTestData_no_file:
  assumes "fs testDataPath = Missing \<or> fs testDataPath = Unreadable \<or> fs testDataPath = Content NotJson"
    and "key \<notin> set object_prototype_names"
  shows "snd (getTestData rt fs key) =
           Inl (Error (''Test data for type '' @ [CHR 0x22] @ key @ [CHR 0x22] @ '' not found in data file''))"
  using assms
  by (auto simp: getTestData_def snd_loadTestData eff_simps object_prototype_def)

lemma getTestData_truthy: "snd (getTestData rt fs key) = Inr v \<Longrightarrow> js_truthy v"
  by (auto simp: getTestData_def snd_loadTestData eff_simps split: sum.splits if_splits)

lemma getCredentials_truthy: "snd (getCredentials rt fs userType) = Inr v \<Longrightarrow> js_truthy v"
  by (auto simp: getCredentials_def Let_def snd_loadTestData eff_simps split: sum.splits if_splits)

lemma getCredentials_unknown_key:
  assumes "fs credentialsPath = Content (Json (JObj kvs))" and "map_of kvs ''users'' = Some (JObj users)"
    and "map_of users key = None" and "key \<notin> set object_prototype_names"
  shows "snd (getCredentials rt fs (Some key)) =
           Inl (Error (''Credentials for user type '' @ [CHR 0x22] @ key @ [CHR 0x22] @ '' not found in credentials file''))"
  using assms
  by (simp add: getCredentials_def Let_def snd_loadTestData eff_simps object_prototype_def)

text \<open>
  C6. A key that is neither a property of the fixture data nor a name on
  \<^verbatim>\<open>Object.prototype\<close> makes \<open>getTestData\<close> and \<open>getCredentials\<close> raise the "not found"
  error that names the key, and neither ever returns a falsy value (the lemmas above).
  The claim says so for every key that is not in the fixture data. The lookups test
  \<^verbatim>\<open>!data[key]\<close>, and that read also finds inherited properties: for the keys
  \<^verbatim>\<open>constructor\<close> and \<^verbatim>\<open>toString\<close>, which are in neither fixture file, the lookups
  raise nothing and return the built-in.
\<close>

theorem inherited_key_is_found:
  "map_of fixture_data ''constructor'' = None
   \<and> snd (getTestData example_runtime fixture_fs ''constructor'') = Inr (JBuiltin ''constructor'')
   \<and> snd (getCredentials example_runtime fixture_fs (Some ''toString'')) = Inr (JBuiltin ''toString'')"
  by (simp add: getTestData_def getCredentials_def Let_def snd_loadTestData eff_simps
      fixture_fs_def fixture_data_def credentials_data_def testDataPath_def credentialsPath_def
      object_prototype_def object_prototype_names_def)



section \<open>Properties of the login orchestration\<close>

lemma cookies_not_inherited': "''cookies'' \<notin> set object_prototype_names"
  by (simp add: object_prototype_names_def)


lemma has_cookies_truthy_get:
  "passes_cookie_check rt state \<Longrightarrow> js_get rt state ''cookies'' = Inr (stored_cookies rt state)"
  by (cases state) (auto simp: passes_cookie_check_def has_cookies_def stored_cookies_def)

lemma snd_login_with_stored_cookies:
  "snd (login_with_stored_cookies rt w) =
     Inr (if cookie_login rt w then Some (JBool True) else None)"
proof (cases "stored_state w")
  case None
  then show ?thesis
    by (auto simp: login_with_stored_cookies_def cookie_login_def stored_state_def
        fs_access_def fs_readFile_def JSON_parse_def eff_simps
        split: disk_file.splits content.splits)
next
  case (Some state)
  then have f: "le_fs w storageStatePath = Content (Json state)"
    by (auto simp: stored_state_def split: disk_file.splits content.splits)
  show ?thesis
  proof (cases "passes_cookie_check rt state")
    case False
    then show ?thesis using Some f
      by (auto simp: login_with_stored_cookies_def cookie_login_def passes_cookie_check_def
          fs_access_def fs_readFile_def JSON_parse_def eff_simps split: sum.splits)
  next
    case True
    then have t: "\<exists>v. has_cookies rt state = Inr v \<and> js_truthy v"
      by (auto simp: passes_cookie_check_def split: sum.splits)
    show ?thesis using Some f True t has_cookies_truthy_get [OF True]
      by (auto simp: login_with_stored_cookies_def cookie_login_def
          fs_access_def fs_readFile_def JSON_parse_def eff_simps snd_isLoggedIn split: sum.splits)
  qed
qed

lemma snd_manual_login: "snd (manual_login rt w) = Inr (JBool (manual_login_succeeds rt w))"
  by (auto simp: manual_login_def manual_login_succeeds_def eff_simps split: sum.splits)

lemma snd_ensureLoggedIn:
  "snd (ensureLoggedIn rt w) =
     Inr (JBool (verdict (le_first_check w) \<or> cookie_login rt w \<or> manual_login_succeeds rt w))"
  by (simp add: ensureLoggedIn_def eff_simps snd_isLoggedIn snd_login_with_stored_cookies
      snd_manual_login)








lemma fst_login_with_stored_cookies:
  "fst (login_with_stored_cookies rt w) =
     (case le_fs w storageStatePath of
        Missing \<Rightarrow> [FsAccess storageStatePath]
      | Unreadable \<Rightarrow> [FsAccess storageStatePath, FsReadFile storageStatePath]
      | Content NotJson \<Rightarrow> [FsAccess storageStatePath, FsReadFile storageStatePath]
      | Content (Json state) \<Rightarrow>
          FsAccess storageStatePath # FsReadFile storageStatePath # cookie_events rt w state)"
proof (cases "le_fs w storageStatePath")
  case Missing
  then show ?thesis
    by (simp add: login_with_stored_cookies_def fs_access_def eff_simps)
next
  case Unreadable
  then show ?thesis
    by (simp add: login_with_stored_cookies_def fs_access_def fs_readFile_def eff_simps)
next
  case (Content data)
  show ?thesis
  proof (cases data)
    case NotJson
    then show ?thesis using Content
      by (simp add: login_with_stored_cookies_def fs_access_def fs_readFile_def JSON_parse_def
          eff_simps)
  next
    case (Json state)
    show ?thesis
    proof (cases "passes_cookie_check rt state")
      case False
      then show ?thesis using Content Json
        by (auto simp: login_with_stored_cookies_def cookie_events_def passes_cookie_check_def
            fs_access_def fs_readFile_def JSON_parse_def eff_simps split: sum.splits)
    next
      case True
      then have t: "\<exists>v. has_cookies rt state = Inr v \<and> js_truthy v"
        by (auto simp: passes_cookie_check_def split: sum.splits)
      show ?thesis using Content Json True t has_cookies_truthy_get [OF True]
        by (auto simp: login_with_stored_cookies_def cookie_events_def
            fs_access_def fs_readFile_def JSON_parse_def eff_simps snd_isLoggedIn
            split: sum.splits)
    qed
  qed
qed

lemma fst_ensureLoggedIn:
  "fst (ensureLoggedIn rt w) =
     fst (isLoggedIn (le_first_check w)) @
     (if verdict (le_first_check w) then []
      else fst (login_with_stored_cookies rt w) @
           (if cookie_login rt w then [] else fst (manual_login rt w)))"
  by (simp add: ensureLoggedIn_def eff_simps snd_isLoggedIn snd_login_with_stored_cookies)












lemma not_verdict_logged_out: "\<not> verdict logged_out_page"
  by (simp add: verdict_def logged_out_page_def url_logged_in_def loggedInIndicators_def
      visible_def menu_shows_logout_def notLoggedInIndicators_def accountMenu_def)




lemma getCredentials_no_files:
  "snd (getCredentials example_runtime (\<lambda>path. Missing) None) =
     Inl (Error (''Credentials for user type '' @ [CHR 0x22] @ ''testUser'' @ [CHR 0x22]
                 @ '' not found in credentials file''))"
  by (simp add: getCredentials_def Let_def snd_loadTestData eff_simps object_prototype_def
      object_prototype_names_def)

lemma first_run_no_state: "le_fs first_run_env storageStatePath = Missing"
  by (simp add: first_run_env_def fixture_fs_def storageStatePath_def testDataPath_def
      credentialsPath_def)














text \<open>
  C8, as the code has it. \<open>ensureLoggedIn\<close> always returns a boolean and never raises
  an error to its caller: the result is true exactly when the first check answers
  true, or the stored cookies log the user in, or the manual login succeeds. An error
  during credential lookup or manual login is caught and turned into false. An error
  while the snapshot is loaded or the cookies are applied is caught as well, and the
  run goes on to the manual login, whose outcome is then the result.
\<close>

theorem ensureLoggedIn_never_raises:
  "snd (ensureLoggedIn rt w) =
     Inr (JBool (verdict (le_first_check w) \<or> cookie_login rt w \<or> manual_login_succeeds rt w))
   \<and> (\<exists>b. snd (ensureLoggedIn rt w) = Inr (JBool b))
   \<and> (\<not> verdict (le_first_check w) \<and> \<not> cookie_login rt w
        \<and> ((\<exists>e. snd (getCredentials rt (le_fs w) None) = Inl e)
            \<or> (\<exists>credentials e. snd (getCredentials rt (le_fs w) None) = Inr credentials
                  \<and> le_login w credentials = Inl e))
        \<longrightarrow> snd (ensureLoggedIn rt w) = Inr (JBool False))
   \<and> (\<not> verdict (le_first_check w)
        \<and> (stored_state w = None \<or> (\<exists>e. le_addCookies w = Inl e) \<or> (\<exists>e. le_goto w = Inl e))
        \<longrightarrow> snd (ensureLoggedIn rt w) = Inr (JBool (manual_login_succeeds rt w)))"
proof -
  have a: "(\<exists>e. snd (getCredentials rt (le_fs w) None) = Inl e)
            \<or> (\<exists>credentials e. snd (getCredentials rt (le_fs w) None) = Inr credentials
                  \<and> le_login w credentials = Inl e)
           \<longrightarrow> \<not> manual_login_succeeds rt w"
    by (auto simp: manual_login_succeeds_def)
  have b: "stored_state w = None \<or> (\<exists>e. le_addCookies w = Inl e) \<or> (\<exists>e. le_goto w = Inl e)
           \<longrightarrow> \<not> cookie_login rt w"
    by (auto simp: cookie_login_def split: option.splits)
  from a b show ?thesis
    by (auto simp: snd_ensureLoggedIn)
qed

theorem ensureLoggedIn_never_raises_witness:
  "\<not> verdict (le_first_check no_files_env) \<and> \<not> cookie_login example_runtime no_files_env
   \<and> snd (getCredentials example_runtime (le_fs no_files_env) None) =
       Inl (Error (''Credentials for user type '' @ [CHR 0x22] @ ''testUser'' @ [CHR 0x22]
                   @ '' not found in credentials file''))
   \<and> snd (ensureLoggedIn example_runtime no_files_env) = Inr (JBool False)"
proof -
  have nv: "\<not> verdict (le_first_check no_files_env)"
    by (simp add: no_files_env_def first_run_env_def not_verdict_logged_out)
  have nc: "\<not> cookie_login example_runtime no_files_env"
    by (simp add: cookie_login_def stored_state_def no_files_env_def)
  have fs: "le_fs no_files_env = (\<lambda>path. Missing)"
    by (simp add: no_files_env_def)
  have g: "snd (getCredentials example_runtime (le_fs no_files_env) None) =
       Inl (Error (''Credentials for user type '' @ [CHR 0x22] @ ''testUser'' @ [CHR 0x22]
                   @ '' not found in credentials file''))"
    by (simp only: fs getCredentials_no_files)
  then have "\<exists>e. snd (getCredentials example_runtime (le_fs no_files_env) None) = Inl e"
    by blast
  with nv nc ensureLoggedIn_never_raises [of example_runtime no_files_env]
  have "snd (ensureLoggedIn example_runtime no_files_env) = Inr (JBool False)"
    by blast
  with nv nc g show ?thesis
    by blast
qed

text \<open>
  The claim as it is written says that an error during state-file loading is turned
  into false. On a first run there is no snapshot: \<^verbatim>\<open>fs.access\<close> rejects, the error is
  caught, the manual login succeeds and the result is true.
\<close>

theorem ensureLoggedIn_error_then_true_counterexample:
  "fs_access (le_fs first_run_env) storageStatePath
     = ([FsAccess storageStatePath], Inl (Error ''ENOENT''))
   \<and> FsAccess storageStatePath \<in> set (fst (ensureLoggedIn example_runtime first_run_env))
   \<and> snd (ensureLoggedIn example_runtime first_run_env) = Inr (JBool True)"
proof -
  have a: "fs_access (le_fs first_run_env) storageStatePath
     = ([FsAccess storageStatePath], Inl (Error ''ENOENT''))"
    by (simp add: fs_access_def call_def first_run_no_state)
  have nv: "\<not> verdict (le_first_check first_run_env)"
    by (simp add: first_run_env_def not_verdict_logged_out)
  have b: "FsAccess storageStatePath \<in> set (fst (ensureLoggedIn example_runtime first_run_env))"
    using nv by (simp add: fst_ensureLoggedIn fst_login_with_stored_cookies first_run_no_state)
  have "manual_login_succeeds example_runtime first_run_env"
    by (simp add: manual_login_succeeds_def getCredentials_def Let_def snd_loadTestData eff_simps
        first_run_env_def fixture_fs_def credentials_data_def test_user_def testDataPath_def
        credentialsPath_def)
  then have c: "snd (ensureLoggedIn example_runtime first_run_env) = Inr (JBool True)"
    by (simp add: snd_ensureLoggedIn)
  from a b c show ?thesis
    by blast
qed


end
